theory Spec2Isabelle
  imports Main
begin

section \<open>The slotted heap page of MiniBase (spacemgr/heappage.cpp)\<close>

text \<open>
  The page keeps a slot directory \<open>slots[0 .. numOfSlots)\<close> and a data area \<open>data\<close> that is
  filled from its high end downwards. Every method of \<open>HeapPage\<close> is translated statement
  by statement; a method that mutates the page takes the page and returns the new page.

  The class declaration (heappage.h) is not part of the sources at hand, so
  \<^item> the constants \<open>HEAPPAGE_DATA_SIZE\<close>, \<open>sizeof(Slot)\<close> and \<open>INVALID_PAGE\<close> are
    parameters, collected in the record \<open>heappage_h\<close>;
  \<^item> the two arrays \<open>slots\<close> and \<open>data\<close> are two separate stores indexed by \<open>int\<close>: the
    code checks no index before it reads or writes, and the model reads and writes at
    whatever index the code computes;
  \<^item> the integer fields are unbounded integers (their widths are declared in the header).
\<close>

subsection \<open>Data\<close>

text \<open>
  The status codes of the source. The specification calls \<open>DONE\<close> returned by
  \<open>InsertRecord\<close> \<^emph>\<open>InsufficientSpace\<close>, \<open>DONE\<close> returned by the two scan functions
  \<^emph>\<open>EndOfSequence\<close>, and \<open>FAIL\<close> \<^emph>\<open>RecordNotFound\<close>.
\<close>

datatype Status = OK | FAIL | DONE

record RecordID =
  pageNo :: int
  slotNo :: int

record Slot =
  offset :: int
  lengthS :: int

record heappage_h =
  HEAPPAGE_DATA_SIZE :: int
  sizeof_Slot :: int
  INVALID_PAGE :: int

record HeapPage =
  pid :: int
  nextPage :: int
  prevPage :: int
  numOfSlots :: int
  fillPtr :: int
  freeSpace :: int
  type_tag :: int
  slots :: "int \<Rightarrow> Slot"
  data :: "int \<Rightarrow> char"

subsection \<open>memcpy\<close>

text \<open>
  \<open>memcpy(&data[dst], recPtr, n)\<close>: the first \<open>n\<close> bytes of the caller's buffer go to
  \<open>data[dst .. dst + n)\<close>. The caller's buffer is a list of bytes; the call is meaningful
  for \<open>0 \<le> n \<le> length recPtr\<close>.
\<close>

definition memcpy_in :: "(int \<Rightarrow> char) \<Rightarrow> int \<Rightarrow> char list \<Rightarrow> int \<Rightarrow> (int \<Rightarrow> char)" where
  "memcpy_in mem dst src n =
     (\<lambda>a. if dst \<le> a \<and> a < dst + n then src ! nat (a - dst) else mem a)"

text \<open>
  \<open>memcpy(&data[dst], &data[src], n)\<close>: all bytes are read before any is written, which
  is what \<open>memcpy\<close> does when the two ranges do not overlap. In all three forms a
  count \<open>n \<le> 0\<close> copies nothing; the source converts a negative count to \<open>size_t\<close>,
  so that the three are the source's \<open>memcpy\<close> for \<open>n \<ge> 0\<close> only.
\<close>

definition memcpy_data :: "(int \<Rightarrow> char) \<Rightarrow> int \<Rightarrow> int \<Rightarrow> int \<Rightarrow> (int \<Rightarrow> char)" where
  "memcpy_data mem dst src n =
     (\<lambda>a. if dst \<le> a \<and> a < dst + n then mem (src + (a - dst)) else mem a)"

text \<open>\<open>memcpy(recPtr, &data[src], n)\<close>: the bytes that arrive in the caller's buffer.\<close>

definition memcpy_out :: "(int \<Rightarrow> char) \<Rightarrow> int \<Rightarrow> int \<Rightarrow> char list" where
  "memcpy_out mem src n = map (\<lambda>k. mem (src + int k)) [0..<nat n]"

subsection \<open>Init and the page links\<close>

definition Init :: "heappage_h \<Rightarrow> int \<Rightarrow> HeapPage \<Rightarrow> HeapPage" where
  "Init K pageNo' s =
     s\<lparr>pid := pageNo', nextPage := INVALID_PAGE K, prevPage := INVALID_PAGE K,
       numOfSlots := 0, fillPtr := 0, freeSpace := HEAPPAGE_DATA_SIZE K\<rparr>"

definition SetNextPage :: "int \<Rightarrow> HeapPage \<Rightarrow> HeapPage" where
  "SetNextPage pageNo' s = s\<lparr>nextPage := pageNo'\<rparr>"

definition SetPrevPage :: "int \<Rightarrow> HeapPage \<Rightarrow> HeapPage" where
  "SetPrevPage pageNo' s = s\<lparr>prevPage := pageNo'\<rparr>"

definition GetNextPage :: "HeapPage \<Rightarrow> int" where
  "GetNextPage s = nextPage s"

definition GetPrevPage :: "HeapPage \<Rightarrow> int" where
  "GetPrevPage s = prevPage s"

subsection \<open>InsertRecord\<close>

text \<open>
  The result is the page after the call and either the status of the failure or, for
  \<open>OK\<close>, the record id written to \<open>rid\<close>.
\<close>

definition InsertRecord ::
  "heappage_h \<Rightarrow> HeapPage \<Rightarrow> char list \<Rightarrow> int \<Rightarrow> HeapPage \<times> (Status + RecordID)" where
  "InsertRecord K s recPtr len =
     (if freeSpace s < len then (s, Inl DONE)
      else
        let s1 = s\<lparr>fillPtr := fillPtr s + len\<rparr>;
            s2 = s1\<lparr>freeSpace := freeSpace s1 - len\<rparr>;
            s3 = s2\<lparr>freeSpace := freeSpace s2 - sizeof_Slot K\<rparr>;
            s4 = s3\<lparr>slots := (slots s3)
                   (numOfSlots s3 := (slots s3 (numOfSlots s3))\<lparr>lengthS := len\<rparr>)\<rparr>;
            s5 = s4\<lparr>slots := (slots s4)
                   (numOfSlots s4 := (slots s4 (numOfSlots s4))
                      \<lparr>offset := HEAPPAGE_DATA_SIZE K - fillPtr s4\<rparr>)\<rparr>;
            rid = \<lparr>pageNo = pid s5, slotNo = numOfSlots s5\<rparr>;
            s6 = s5\<lparr>numOfSlots := numOfSlots s5 + 1\<rparr>;
            s7 = s6\<lparr>data := memcpy_in (data s6)
                   (offset (slots s6 (numOfSlots s6 - 1))) recPtr len\<rparr>
        in (s7, Inr rid))"

subsection \<open>DeleteRecord\<close>

text \<open>The loop \<open>for (i = rid.slotNo+1; i < numOfSlots; i++)\<close> that closes the gap.\<close>

function DeleteRecord_loop :: "int \<Rightarrow> int \<Rightarrow> HeapPage \<Rightarrow> HeapPage" where
  "DeleteRecord_loop rlength i s =
     (if i < numOfSlots s then
        let s1 = s\<lparr>data := memcpy_data (data s)
                     (offset (slots s i) + rlength) (offset (slots s i)) rlength\<rparr>;
            s2 = s1\<lparr>slots := (slots s1)
                     (i := (slots s1 i)\<lparr>offset := offset (slots s1 i) + rlength\<rparr>)\<rparr>
        in DeleteRecord_loop rlength (i + 1) s2
      else s)"
  by pat_completeness auto
termination
  by (relation "measure (\<lambda>(rlength, i, s). nat (numOfSlots s - i))") (auto simp: Let_def)

declare DeleteRecord_loop.simps [simp del]

definition DeleteRecord :: "HeapPage \<Rightarrow> RecordID \<Rightarrow> HeapPage \<times> Status" where
  "DeleteRecord s rid =
     (if pageNo rid \<noteq> pid s then (s, FAIL)
      else if offset (slots s (slotNo rid)) = - 1 then (s, FAIL)
      else
        let roffset = offset (slots s (slotNo rid));
            rlength = lengthS (slots s (slotNo rid));
            s1 = s\<lparr>slots := (slots s)(slotNo rid := (slots s (slotNo rid))\<lparr>offset := - 1\<rparr>)\<rparr>;
            s2 = s1\<lparr>freeSpace := freeSpace s1 + rlength\<rparr>;
            s3 = s2\<lparr>fillPtr := fillPtr s2 - rlength\<rparr>
        in (DeleteRecord_loop rlength (slotNo rid + 1) s3, OK))"

subsection \<open>FirstRecord and NextRecord\<close>

function FirstRecord_loop :: "HeapPage \<Rightarrow> int \<Rightarrow> Status + RecordID" where
  "FirstRecord_loop s first =
     (if first < numOfSlots s then
        (if offset (slots s first) \<noteq> - 1 then Inr \<lparr>pageNo = pid s, slotNo = first\<rparr>
         else FirstRecord_loop s (first + 1))
      else Inl DONE)"
  by pat_completeness auto
termination
  by (relation "measure (\<lambda>(s, first). nat (numOfSlots s - first))") auto

declare FirstRecord_loop.simps [simp del]

definition FirstRecord :: "HeapPage \<Rightarrow> Status + RecordID" where
  "FirstRecord s = (if numOfSlots s = 0 then Inl DONE else FirstRecord_loop s 0)"

function NextRecord_loop :: "HeapPage \<Rightarrow> int \<Rightarrow> Status + RecordID" where
  "NextRecord_loop s next =
     (if next < numOfSlots s then
        (if offset (slots s next) \<noteq> - 1 then Inr \<lparr>pageNo = pid s, slotNo = next\<rparr>
         else NextRecord_loop s (next + 1))
      else Inl DONE)"
  by pat_completeness auto
termination
  by (relation "measure (\<lambda>(s, next). nat (numOfSlots s - next))") auto

declare NextRecord_loop.simps [simp del]

definition NextRecord :: "HeapPage \<Rightarrow> RecordID \<Rightarrow> Status + RecordID" where
  "NextRecord s curRid =
     (if pageNo curRid \<noteq> pid s then Inl DONE
      else NextRecord_loop s (slotNo curRid + 1))"

subsection \<open>GetRecord, ReturnRecord, AvailableSpace\<close>

text \<open>For \<open>OK\<close> the result is the bytes copied to \<open>recPtr\<close> and the value of \<open>length\<close>.\<close>

definition GetRecord :: "HeapPage \<Rightarrow> RecordID \<Rightarrow> Status + (char list \<times> int)" where
  "GetRecord s rid =
     (if pageNo rid \<noteq> pid s then Inl FAIL
      else if slotNo rid \<ge> numOfSlots s \<or> offset (slots s (slotNo rid)) = - 1 then Inl FAIL
      else
        let len = lengthS (slots s (slotNo rid))
        in Inr (memcpy_out (data s) (offset (slots s (slotNo rid))) len, len))"

text \<open>For \<open>OK\<close> the result is the index into \<open>data\<close> that \<open>recPtr\<close> points to, and \<open>length\<close>.\<close>

definition ReturnRecord :: "HeapPage \<Rightarrow> RecordID \<Rightarrow> Status + (int \<times> int)" where
  "ReturnRecord s rid =
     (if pageNo rid \<noteq> pid s then Inl FAIL
      else if slotNo rid \<ge> numOfSlots s \<or> offset (slots s (slotNo rid)) = - 1 then Inl FAIL
      else
        let len = lengthS (slots s (slotNo rid))
        in Inr (offset (slots s (slotNo rid)), len))"

definition AvailableSpace :: "HeapPage \<Rightarrow> int" where
  "AvailableSpace s = freeSpace s"

subsection \<open>IsEmpty and GetNumOfRecords\<close>

function IsEmpty_loop :: "HeapPage \<Rightarrow> int \<Rightarrow> bool" where
  "IsEmpty_loop s i =
     (if i < numOfSlots s then
        (if offset (slots s i) \<noteq> - 1 then False else IsEmpty_loop s (i + 1))
      else True)"
  by pat_completeness auto
termination
  by (relation "measure (\<lambda>(s, i). nat (numOfSlots s - i))") auto

declare IsEmpty_loop.simps [simp del]

definition IsEmpty :: "HeapPage \<Rightarrow> bool" where
  "IsEmpty s = (if numOfSlots s = 0 then True else IsEmpty_loop s 0)"

function GetNumOfRecords_loop :: "HeapPage \<Rightarrow> int \<Rightarrow> int \<Rightarrow> int" where
  "GetNumOfRecords_loop s i toReturn =
     (if i < numOfSlots s then
        (if offset (slots s i) = - 1 then GetNumOfRecords_loop s (i + 1) (toReturn - 1)
         else GetNumOfRecords_loop s (i + 1) toReturn)
      else toReturn)"
  by pat_completeness auto
termination
  by (relation "measure (\<lambda>(s, i, toReturn). nat (numOfSlots s - i))") auto

declare GetNumOfRecords_loop.simps [simp del]

definition GetNumOfRecords :: "HeapPage \<Rightarrow> int" where
  "GetNumOfRecords s = GetNumOfRecords_loop s 0 (numOfSlots s)"

subsection \<open>CompactSlotDir\<close>

text \<open>
  The first loop, \<open>while (end < numOfSlots && slots[end].offset == -1) end--\<close>, has no
  lower bound on \<open>end\<close>: it stops only at a slot whose offset is not \<open>-1\<close>. It is a partial
  function, and \<open>None\<close> stands for a loop that never stops.
\<close>

partial_function (option) CompactSlotDir_skip :: "HeapPage \<Rightarrow> int \<Rightarrow> int option" where
  "CompactSlotDir_skip s e =
     (if e < numOfSlots s \<and> offset (slots s e) = - 1 then CompactSlotDir_skip s (e - 1)
      else Some e)"

text \<open>The second loop, \<open>while (start < end)\<close>; the result is the page and \<open>start\<close>.\<close>

function CompactSlotDir_loop :: "HeapPage \<Rightarrow> int \<Rightarrow> int \<Rightarrow> HeapPage \<times> int" where
  "CompactSlotDir_loop s start e =
     (if start < e then
        (if offset (slots s start) \<noteq> - 1 then CompactSlotDir_loop s (start + 1) e
         else if offset (slots s e) = - 1 then CompactSlotDir_loop s start (e - 1)
         else
           let s1 = s\<lparr>slots := (slots s)
                      (start := (slots s start)\<lparr>offset := offset (slots s e)\<rparr>)\<rparr>;
               s2 = s1\<lparr>slots := (slots s1)
                      (start := (slots s1 start)\<lparr>lengthS := lengthS (slots s1 e)\<rparr>)\<rparr>
           in CompactSlotDir_loop s2 (start + 1) (e - 1))
      else (s, start))"
  by pat_completeness auto
termination
  by (relation "measure (\<lambda>(s, start, e). nat (e - start))") auto

declare CompactSlotDir_loop.simps [simp del]

definition CompactSlotDir :: "heappage_h \<Rightarrow> HeapPage \<Rightarrow> HeapPage option" where
  "CompactSlotDir K s =
     (case CompactSlotDir_skip s (numOfSlots s - 1) of
        None \<Rightarrow> None
      | Some e \<Rightarrow>
          (case CompactSlotDir_loop s 0 e of
             (s1, start) \<Rightarrow>
               let s2 = s1\<lparr>freeSpace := freeSpace s1 + sizeof_Slot K * (numOfSlots s1 - start)\<rparr>
               in Some (s2\<lparr>numOfSlots := start\<rparr>)))"

subsection \<open>A scan of the page\<close>

text \<open>
  The caller's loop over a page: \<open>FirstRecord\<close>, then \<open>NextRecord\<close> on the record id
  returned last, until a call does not return \<open>OK\<close>. The result lists what every call
  returned, the last entry being the status that ended the scan.
\<close>

function scan_rest :: "HeapPage \<Rightarrow> RecordID \<Rightarrow> (Status + RecordID) list" where
  "scan_rest s curRid =
     (case NextRecord s curRid of
        Inl st \<Rightarrow> [Inl st]
      | Inr nextRid \<Rightarrow> Inr nextRid # scan_rest s nextRid)"
  by pat_completeness auto
termination
proof (relation "measure (\<lambda>(s, curRid). nat (numOfSlots s - slotNo curRid))")
  show "wf (measure (\<lambda>(s, curRid). nat (numOfSlots s - slotNo curRid)))"
    by simp
next
  fix s :: HeapPage and curRid nextRid :: RecordID
  assume step: "NextRecord s curRid = Inr nextRid"
  have bound: "NextRecord_loop s i = Inr r \<Longrightarrow> i \<le> slotNo r \<and> slotNo r < numOfSlots s"
    for i r
  proof (induction s i rule: NextRecord_loop.induct)
    case (1 s i)
    from "1.prems" show ?case
      by (subst (asm) NextRecord_loop.simps) (use "1.IH" in \<open>auto split: if_splits\<close>)
  qed
  from step have "NextRecord_loop s (slotNo curRid + 1) = Inr nextRid"
    by (simp add: NextRecord_def split: if_splits)
  from bound [OF this]
  show "((s, nextRid), (s, curRid)) \<in> measure (\<lambda>(s, curRid). nat (numOfSlots s - slotNo curRid))"
    by simp
qed

declare scan_rest.simps [simp del]

definition scan :: "HeapPage \<Rightarrow> (Status + RecordID) list" where
  "scan s =
     (case FirstRecord s of
        Inl st \<Rightarrow> [Inl st]
      | Inr rid \<Rightarrow> Inr rid # scan_rest s rid)"

text \<open>The slots from index \<open>i\<close> on that are not deleted, in increasing order.\<close>

definition live_slots :: "HeapPage \<Rightarrow> int \<Rightarrow> int list" where
  "live_slots s i = filter (\<lambda>k. offset (slots s k) \<noteq> - 1) [i..numOfSlots s - 1]"

subsection \<open>The accounting equation and the reachable pages\<close>

definition accounting :: "heappage_h \<Rightarrow> HeapPage \<Rightarrow> bool" where
  "accounting K s \<longleftrightarrow>
     freeSpace s = HEAPPAGE_DATA_SIZE K - fillPtr s - numOfSlots s * sizeof_Slot K"

definition page_inv :: "heappage_h \<Rightarrow> HeapPage \<Rightarrow> bool" where
  "page_inv K s \<longleftrightarrow> accounting K s \<and> 0 \<le> numOfSlots s"

text \<open>
  The pages that the mutating methods produce from \<open>Init\<close>, which may be called on a
  buffer of any content. The other methods do not change the page.
\<close>

inductive reachable :: "heappage_h \<Rightarrow> HeapPage \<Rightarrow> bool" for K :: heappage_h where
  reach_Init: "reachable K (Init K pageNo' s)"
| reach_SetNextPage: "reachable K s \<Longrightarrow> reachable K (SetNextPage pageNo' s)"
| reach_SetPrevPage: "reachable K s \<Longrightarrow> reachable K (SetPrevPage pageNo' s)"
| reach_InsertRecord: "reachable K s \<Longrightarrow> reachable K (fst (InsertRecord K s recPtr len))"
| reach_DeleteRecord: "reachable K s \<Longrightarrow> reachable K (fst (DeleteRecord s rid))"
| reach_CompactSlotDir:
    "reachable K s \<Longrightarrow> CompactSlotDir K s = Some s' \<Longrightarrow> reachable K s'"

subsection \<open>Concrete pages\<close>

text \<open>
  A data area of 100 bytes and slots of two 32-bit integers, a zero-filled buffer, and the
  pages of the scenario of the specification: page 7 is initialised, \<open>AAAA\<close> and then
  \<open>BBBBBB\<close> are inserted, and the first record is deleted.
\<close>

definition example_h :: heappage_h where
  "example_h = \<lparr>HEAPPAGE_DATA_SIZE = 100, sizeof_Slot = 8, INVALID_PAGE = - 1\<rparr>"

definition zero_page :: HeapPage where
  "zero_page = \<lparr>pid = 0, nextPage = 0, prevPage = 0, numOfSlots = 0, fillPtr = 0,
     freeSpace = 0, type_tag = 0, slots = (\<lambda>i. \<lparr>offset = 0, lengthS = 0\<rparr>),
     data = (\<lambda>a. CHR 0x00)\<rparr>"

definition rid0 :: RecordID where
  "rid0 = \<lparr>pageNo = 7, slotNo = 0\<rparr>"

definition rid1 :: RecordID where
  "rid1 = \<lparr>pageNo = 7, slotNo = 1\<rparr>"

definition page_empty :: HeapPage where
  "page_empty = Init example_h 7 zero_page"

definition page_A :: HeapPage where
  "page_A = fst (InsertRecord example_h page_empty ''AAAA'' 4)"

definition page_AB :: HeapPage where
  "page_AB = fst (InsertRecord example_h page_A ''BBBBBB'' 6)"

definition page_B :: HeapPage where
  "page_B = fst (DeleteRecord page_AB rid0)"

text \<open>The page that held \<open>AAAA\<close>, initialised again for page 7.\<close>

definition page_again :: HeapPage where
  "page_again = Init example_h 7 page_A"

text \<open>The page after \<open>BBBBBB\<close>, the record inserted last, is deleted instead.\<close>

definition page_A_only :: HeapPage where
  "page_A_only = fst (DeleteRecord page_AB rid1)"

text \<open>The page that \<open>CompactSlotDir\<close> makes of \<open>page_B\<close>.\<close>

definition page_B_compact :: HeapPage where
  "page_B_compact =
     page_B\<lparr>slots := (slots page_B)(0 := \<lparr>offset = 94, lengthS = 6\<rparr>),
            freeSpace := 86, numOfSlots := 1\<rparr>"

section \<open>Properties\<close>

subsection \<open>The operations, field by field\<close>

lemma Slot_update_both [simp]:
  "(sl::Slot)\<lparr>lengthS := l, offset := off\<rparr> = \<lparr>offset = off, lengthS = l\<rparr>"
  "(sl::Slot)\<lparr>offset := off, lengthS := l\<rparr> = \<lparr>offset = off, lengthS = l\<rparr>"
  by (cases sl, simp)+

lemma InsertRecord_OK:
  "\<not> freeSpace s < len \<Longrightarrow>
   InsertRecord K s recPtr len =
     (s\<lparr>fillPtr := fillPtr s + len,
        freeSpace := freeSpace s - len - sizeof_Slot K,
        slots := (slots s)(numOfSlots s :=
                   \<lparr>offset = HEAPPAGE_DATA_SIZE K - (fillPtr s + len), lengthS = len\<rparr>),
        numOfSlots := numOfSlots s + 1,
        data := memcpy_in (data s) (HEAPPAGE_DATA_SIZE K - (fillPtr s + len)) recPtr len\<rparr>,
      Inr \<lparr>pageNo = pid s, slotNo = numOfSlots s\<rparr>)"
  by (simp add: InsertRecord_def Let_def)

lemma InsertRecord_DONE:
  "freeSpace s < len \<Longrightarrow> InsertRecord K s recPtr len = (s, Inl DONE)"
  by (simp add: InsertRecord_def)

lemma memcpy_out_memcpy_in:
  "memcpy_out (memcpy_in mem dst src (int (length src))) dst (int (length src)) = src"
  by (auto simp: memcpy_out_def memcpy_in_def intro!: nth_equalityI)

lemma DeleteRecord_loop_fields [simp]:
  "numOfSlots (DeleteRecord_loop r i s) = numOfSlots s"
  "pid (DeleteRecord_loop r i s) = pid s"
  "fillPtr (DeleteRecord_loop r i s) = fillPtr s"
  "freeSpace (DeleteRecord_loop r i s) = freeSpace s"
  by (induction r i s rule: DeleteRecord_loop.induct,
      subst DeleteRecord_loop.simps, simp add: Let_def)+

lemma DeleteRecord_loop_slots:
  "slots (DeleteRecord_loop r i s) k =
     (if i \<le> k \<and> k < numOfSlots s then (slots s k)\<lparr>offset := offset (slots s k) + r\<rparr>
      else slots s k)"
proof (induction r i s rule: DeleteRecord_loop.induct)
  case (1 r i s)
  show ?case
  proof (cases "i < numOfSlots s")
    case True
    then show ?thesis
      using "1.IH" [OF True refl refl]
      by (subst DeleteRecord_loop.simps) (simp add: Let_def)
  next
    case False
    then show ?thesis
      by (subst DeleteRecord_loop.simps) simp
  qed
qed

subsection \<open>The scan\<close>

lemma live_slots_increasing: "sorted_wrt (<) (live_slots s i)"
  by (simp add: live_slots_def strict_sorted_iff sorted_wrt_filter)

lemma live_slots_set:
  "set (live_slots s i) = {k. i \<le> k \<and> k < numOfSlots s \<and> offset (slots s k) \<noteq> - 1}"
  by (auto simp: live_slots_def)

lemma live_slots_rec:
  "live_slots s i =
     (if i < numOfSlots s then
        (if offset (slots s i) \<noteq> - 1 then i # live_slots s (i + 1) else live_slots s (i + 1))
      else [])"
  by (simp add: live_slots_def upto_rec1 [of i])

lemma NextRecord_loop_live:
  "NextRecord_loop s i =
     (case live_slots s i of [] \<Rightarrow> Inl DONE | k # ks \<Rightarrow> Inr \<lparr>pageNo = pid s, slotNo = k\<rparr>)"
proof (induction s i rule: NextRecord_loop.induct)
  case (1 s i)
  show ?case
    by (subst NextRecord_loop.simps, subst live_slots_rec) (simp add: "1.IH")
qed

lemma FirstRecord_loop_live:
  "FirstRecord_loop s i =
     (case live_slots s i of [] \<Rightarrow> Inl DONE | k # ks \<Rightarrow> Inr \<lparr>pageNo = pid s, slotNo = k\<rparr>)"
proof (induction s i rule: FirstRecord_loop.induct)
  case (1 s i)
  show ?case
    by (subst FirstRecord_loop.simps, subst live_slots_rec) (simp add: "1.IH")
qed

lemma live_slots_tail:
  "live_slots s i = k # ks \<Longrightarrow> ks = live_slots s (k + 1)"
proof (induction s i rule: NextRecord_loop.induct)
  case (1 s i)
  from "1.prems" show ?case
    by (subst (asm) live_slots_rec) (use "1.IH" in \<open>auto split: if_splits\<close>)
qed

lemma scan_rest_live:
  "pageNo curRid = pid s \<Longrightarrow>
   scan_rest s curRid =
     map (\<lambda>k. Inr \<lparr>pageNo = pid s, slotNo = k\<rparr>) (live_slots s (slotNo curRid + 1)) @ [Inl DONE]"
proof (induction s curRid rule: scan_rest.induct)
  case (1 s curRid)
  show ?case
  proof (cases "live_slots s (slotNo curRid + 1)")
    case Nil
    then show ?thesis
      using "1.prems"
      by (subst scan_rest.simps) (simp add: NextRecord_def NextRecord_loop_live)
  next
    case (Cons k ks)
    then have nxt: "NextRecord s curRid = Inr \<lparr>pageNo = pid s, slotNo = k\<rparr>"
      using "1.prems" by (simp add: NextRecord_def NextRecord_loop_live)
    have "ks = live_slots s (k + 1)"
      using Cons by (rule live_slots_tail)
    then show ?thesis
      using "1.IH" [OF nxt] nxt Cons
      by (subst scan_rest.simps) simp
  qed
qed

lemma scan_live:
  "scan s = map (\<lambda>k. Inr \<lparr>pageNo = pid s, slotNo = k\<rparr>) (live_slots s 0) @ [Inl DONE]"
proof (cases "live_slots s 0")
  case Nil
  then show ?thesis
    by (simp add: scan_def FirstRecord_def FirstRecord_loop_live live_slots_def)
next
  case (Cons k ks)
  then have "numOfSlots s \<noteq> 0"
    by (auto simp: live_slots_def)
  moreover have "ks = live_slots s (k + 1)"
    using Cons by (rule live_slots_tail)
  ultimately show ?thesis
    using Cons by (simp add: scan_def FirstRecord_def FirstRecord_loop_live scan_rest_live)
qed

subsection \<open>CompactSlotDir and the accounting equation, method by method\<close>

lemma CompactSlotDir_loop_fields:
  "CompactSlotDir_loop s start e = (s1, start1) \<Longrightarrow>
     numOfSlots s1 = numOfSlots s \<and> fillPtr s1 = fillPtr s \<and> freeSpace s1 = freeSpace s \<and>
     pid s1 = pid s \<and> data s1 = data s \<and> start \<le> start1"
proof (induction s start e arbitrary: s1 start1 rule: CompactSlotDir_loop.induct)
  case (1 s start e)
  show ?case
  proof (cases "start < e")
    case False
    with "1.prems" show ?thesis
      by (subst (asm) CompactSlotDir_loop.simps) auto
  next
    case True
    show ?thesis
    proof (cases "offset (slots s start) \<noteq> - 1")
      case live: True
      from "1.prems" True live have "CompactSlotDir_loop s (start + 1) e = (s1, start1)"
        by (subst (asm) CompactSlotDir_loop.simps) simp
      from "1.IH"(1) [OF True live this] show ?thesis
        by simp
    next
      case dead: False
      show ?thesis
      proof (cases "offset (slots s e) = - 1")
        case edead: True
        from "1.prems" True dead edead have "CompactSlotDir_loop s start (e - 1) = (s1, start1)"
          by (subst (asm) CompactSlotDir_loop.simps) simp
        from "1.IH"(2) [OF True dead edead this] show ?thesis
          by simp
      next
        case elive: False
        from "1.prems" True dead elive
        have "CompactSlotDir_loop
                (s\<lparr>slots := (slots s)(start := \<lparr>offset = offset (slots s e),
                                                  lengthS = lengthS (slots s e)\<rparr>)\<rparr>)
                (start + 1) (e - 1) = (s1, start1)"
          by (subst (asm) CompactSlotDir_loop.simps) (simp add: Let_def)
        with "1.IH"(3) [OF True dead elive refl refl, of s1 start1] True show ?thesis
          by simp
      qed
    qed
  qed
qed

lemma accounting_Init: "accounting K (Init K pageNo' s)"
  by (simp add: accounting_def Init_def)

lemma accounting_SetNextPage: "accounting K (SetNextPage pageNo' s) = accounting K s"
  by (simp add: accounting_def SetNextPage_def)

lemma accounting_SetPrevPage: "accounting K (SetPrevPage pageNo' s) = accounting K s"
  by (simp add: accounting_def SetPrevPage_def)

lemma accounting_InsertRecord:
  "accounting K s \<Longrightarrow> accounting K (fst (InsertRecord K s recPtr len))"
  by (cases "freeSpace s < len")
     (simp_all add: InsertRecord_DONE InsertRecord_OK accounting_def algebra_simps)

lemma accounting_DeleteRecord:
  "accounting K s \<Longrightarrow> accounting K (fst (DeleteRecord s rid))"
  by (simp add: DeleteRecord_def accounting_def Let_def)

lemma accounting_CompactSlotDir:
  assumes "accounting K s" and "CompactSlotDir K s = Some s'"
  shows "accounting K s'"
proof -
  from assms(2) obtain e s1 start where
    loop: "CompactSlotDir_loop s 0 e = (s1, start)" and
    s': "s' = s1\<lparr>freeSpace := freeSpace s1 + sizeof_Slot K * (numOfSlots s1 - start),
                 numOfSlots := start\<rparr>"
    by (auto simp: CompactSlotDir_def Let_def split: option.splits prod.splits)
  from CompactSlotDir_loop_fields [OF loop] assms(1) show ?thesis
    by (simp add: s' accounting_def algebra_simps)
qed

lemma numOfSlots_CompactSlotDir:
  assumes "CompactSlotDir K s = Some s'"
  shows "0 \<le> numOfSlots s'"
proof -
  from assms obtain e s1 start where
    loop: "CompactSlotDir_loop s 0 e = (s1, start)" and
    s': "s' = s1\<lparr>freeSpace := freeSpace s1 + sizeof_Slot K * (numOfSlots s1 - start),
                 numOfSlots := start\<rparr>"
    by (auto simp: CompactSlotDir_def Let_def split: option.splits prod.splits)
  from CompactSlotDir_loop_fields [OF loop] show ?thesis
    by (simp add: s')
qed

lemma reachable_page_inv: "reachable K s \<Longrightarrow> page_inv K s"
proof (induction rule: reachable.induct)
  case (reach_Init pageNo' s)
  show ?case
    by (simp add: page_inv_def accounting_Init) (simp add: Init_def)
next
  case (reach_SetNextPage s pageNo')
  then show ?case
    by (simp add: page_inv_def accounting_SetNextPage) (simp add: SetNextPage_def)
next
  case (reach_SetPrevPage s pageNo')
  then show ?case
    by (simp add: page_inv_def accounting_SetPrevPage) (simp add: SetPrevPage_def)
next
  case (reach_InsertRecord s recPtr len)
  then show ?case
    by (cases "freeSpace s < len")
       (simp_all add: page_inv_def accounting_InsertRecord, simp_all add: InsertRecord_DONE InsertRecord_OK)
next
  case (reach_DeleteRecord s rid)
  then show ?case
    by (simp add: page_inv_def accounting_DeleteRecord) (simp add: DeleteRecord_def Let_def)
next
  case (reach_CompactSlotDir s s')
  then show ?case
    using accounting_CompactSlotDir [of K s s'] numOfSlots_CompactSlotDir [of K s s']
    by (simp add: page_inv_def)
qed

text \<open>The first loop of \<open>CompactSlotDir\<close> stops at the first live slot at or below \<open>end\<close>.\<close>

lemma CompactSlotDir_skip_returns:
  assumes "k \<le> e" and "offset (slots s k) \<noteq> - 1"
  shows "\<exists>e'. CompactSlotDir_skip s e = Some e'"
  using assms
proof (induction "nat (e - k)" arbitrary: e)
  case 0
  then have "e = k" by simp
  with "0.prems" show ?case
    by (subst CompactSlotDir_skip.simps) simp
next
  case (Suc n)
  then have "n = nat (e - 1 - k)" and "k \<le> e - 1"
    by linarith+
  from Suc.hyps(1) [OF this Suc.prems(2)] show ?case
    by (subst CompactSlotDir_skip.simps) simp
qed

lemma CompactSlotDir_returns:
  assumes "k < numOfSlots s" and "offset (slots s k) \<noteq> - 1"
  shows "\<exists>s'. CompactSlotDir K s = Some s'"
proof -
  from assms have "k \<le> numOfSlots s - 1" by simp
  from CompactSlotDir_skip_returns [OF this assms(2)]
  show ?thesis
    by (auto simp: CompactSlotDir_def Let_def split: prod.splits)
qed


subsection \<open>The concrete pages, field by field\<close>

lemma example_h_fields:
  "HEAPPAGE_DATA_SIZE example_h = 100" "sizeof_Slot example_h = 8"
  "INVALID_PAGE example_h = - 1"
  by (simp_all add: example_h_def)

lemma page_empty_fields:
  "pid page_empty = 7" "numOfSlots page_empty = 0" "fillPtr page_empty = 0"
  "freeSpace page_empty = 100"
  by (simp_all add: page_empty_def Init_def example_h_fields)

lemma page_A_fields:
  "pid page_A = 7" "numOfSlots page_A = 1" "fillPtr page_A = 4" "freeSpace page_A = 88"
  "slots page_A 0 = \<lparr>offset = 96, lengthS = 4\<rparr>"
  by (simp_all add: page_A_def InsertRecord_OK page_empty_fields example_h_fields)

lemma page_AB_fields:
  "pid page_AB = 7" "numOfSlots page_AB = 2" "fillPtr page_AB = 10" "freeSpace page_AB = 74"
  "slots page_AB 0 = \<lparr>offset = 96, lengthS = 4\<rparr>"
  "slots page_AB 1 = \<lparr>offset = 90, lengthS = 6\<rparr>"
  by (simp_all add: page_AB_def InsertRecord_OK page_A_fields example_h_fields)

lemma DeleteRecord_page_AB:
  "DeleteRecord page_AB rid0 = (page_B, OK)"
  by (simp add: page_B_def) (simp add: DeleteRecord_def rid0_def page_AB_fields Let_def)

lemma page_B_fields:
  "pid page_B = 7" "numOfSlots page_B = 2" "fillPtr page_B = 6" "freeSpace page_B = 78"
  "slots page_B 0 = \<lparr>offset = - 1, lengthS = 4\<rparr>"
  "slots page_B 1 = \<lparr>offset = 94, lengthS = 6\<rparr>"
  by (simp_all add: page_B_def DeleteRecord_def rid0_def page_AB_fields Let_def
        DeleteRecord_loop_slots)

lemma page_A_only_fields:
  "pid page_A_only = 7" "numOfSlots page_A_only = 2"
  "slots page_A_only 0 = \<lparr>offset = 96, lengthS = 4\<rparr>"
  "slots page_A_only 1 = \<lparr>offset = - 1, lengthS = 6\<rparr>"
  by (simp_all add: page_A_only_def DeleteRecord_def rid1_def page_AB_fields Let_def
        DeleteRecord_loop_slots)

lemma page_again_fields:
  "pid page_again = 7" "numOfSlots page_again = 0" "fillPtr page_again = 0"
  "freeSpace page_again = 100" "slots page_again 0 = \<lparr>offset = 96, lengthS = 4\<rparr>"
  by (simp_all add: page_again_def Init_def example_h_fields page_A_fields)

lemma page_AB_data:
  "data page_AB = memcpy_in (memcpy_in (\<lambda>a. CHR 0x00) 96 ''AAAA'' 4) 90 ''BBBBBB'' 6"
  by (simp add: page_AB_def page_A_def InsertRecord_OK page_A_fields page_empty_fields
        example_h_fields)
     (simp add: page_empty_def Init_def zero_page_def)

lemma page_B_data: "data page_B = memcpy_data (data page_AB) 94 90 4"
  by (simp add: page_B_def DeleteRecord_def rid0_def page_AB_fields Let_def)
     (subst DeleteRecord_loop.simps, simp add: page_AB_fields Let_def,
      subst DeleteRecord_loop.simps, simp add: page_AB_fields)

lemma CompactSlotDir_page_A:
  "CompactSlotDir example_h page_A = Some (page_A\<lparr>freeSpace := 96, numOfSlots := 0\<rparr>)"
  by (simp add: CompactSlotDir_def)
     (subst CompactSlotDir_skip.simps, simp add: page_A_fields,
      subst CompactSlotDir_loop.simps, simp add: page_A_fields example_h_fields)

lemma CompactSlotDir_page_B:
  "CompactSlotDir example_h page_B = Some page_B_compact"
  by (simp add: CompactSlotDir_def)
     (subst CompactSlotDir_skip.simps, simp add: page_B_fields,
      subst CompactSlotDir_loop.simps, simp add: page_B_fields Let_def,
      subst CompactSlotDir_loop.simps,
      simp add: page_B_fields example_h_fields page_B_compact_def)

lemma reachable_page_A: "reachable example_h page_A"
  unfolding page_A_def page_empty_def by (intro reachable.intros)

subsection \<open>Iteration order\<close>

text \<open>
  Claim C7. For every page, the calls \<open>FirstRecord\<close>, \<open>NextRecord\<close>, \<open>NextRecord\<close>, ...,
  each on the record id returned by the call before, return the slots of
  \<open>[0, numOfSlots)\<close> that are not deleted, in strictly increasing order of the slot index
  and each once, and then \<open>DONE\<close> (\<^emph>\<open>EndOfSequence\<close>). \<open>NextRecord\<close> returns \<open>DONE\<close>
  whenever \<open>curRid.pageNo\<close> is not the page's id.
\<close>

theorem scan_order:
  "scan s =
     map (\<lambda>k. Inr \<lparr>pageNo = pid s, slotNo = k\<rparr>)
       (filter (\<lambda>k. offset (slots s k) \<noteq> - 1) [0..numOfSlots s - 1]) @ [Inl DONE] \<and>
   (pageNo curRid \<noteq> pid s \<longrightarrow> NextRecord s curRid = Inl DONE)"
  by (simp add: scan_live live_slots_def NextRecord_def)

theorem scan_order_witness:
  "pageNo \<lparr>pageNo = 8, slotNo = 0\<rparr> \<noteq> pid page_B \<and>
   scan page_B = [Inr \<lparr>pageNo = 7, slotNo = 1\<rparr>, Inl DONE] \<and>
   NextRecord page_B \<lparr>pageNo = 8, slotNo = 0\<rparr> = Inl DONE"
  using scan_order [of page_B "\<lparr>pageNo = 8, slotNo = 0\<rparr>"]
  by (simp add: page_B_fields upto_rec1)

subsection \<open>InsertRecord\<close>

text \<open>
  Claim C5. \<open>InsertRecord\<close> returns \<open>DONE\<close> (\<^emph>\<open>InsufficientSpace\<close>) if and only if
  \<open>length > freeSpace\<close>, and then the page is unchanged. Otherwise the record id is
  \<open>{pid, numOfSlots}\<close> with the old \<open>numOfSlots\<close>, the new slot holds the offset
  \<open>HEAPPAGE_DATA_SIZE - (fillPtr + length)\<close> and the length, the bytes of the record (a
  buffer of \<open>length\<close> bytes) stand at that offset of the data area, and \<open>AvailableSpace\<close>
  has gone down by \<open>length + sizeof(Slot)\<close>.
\<close>

theorem InsertRecord_contract:
  "(snd (InsertRecord K s recPtr len) = Inl DONE \<longleftrightarrow> freeSpace s < len) \<and>
   (freeSpace s < len \<longrightarrow> fst (InsertRecord K s recPtr len) = s) \<and>
   (\<not> freeSpace s < len \<longrightarrow>
      snd (InsertRecord K s recPtr len) = Inr \<lparr>pageNo = pid s, slotNo = numOfSlots s\<rparr> \<and>
      slots (fst (InsertRecord K s recPtr len)) (numOfSlots s) =
        \<lparr>offset = HEAPPAGE_DATA_SIZE K - (fillPtr s + len), lengthS = len\<rparr> \<and>
      (len = int (length recPtr) \<longrightarrow>
         memcpy_out (data (fst (InsertRecord K s recPtr len)))
           (HEAPPAGE_DATA_SIZE K - (fillPtr s + len)) len = recPtr) \<and>
      AvailableSpace (fst (InsertRecord K s recPtr len)) =
        AvailableSpace s - (len + sizeof_Slot K))"
proof (cases "freeSpace s < len")
  case True
  then show ?thesis
    by (simp add: InsertRecord_DONE)
next
  case False
  then show ?thesis
    by (simp add: InsertRecord_OK AvailableSpace_def memcpy_out_memcpy_in)
qed

theorem InsertRecord_contract_witness:
  "\<not> freeSpace page_A < 6 \<and> 6 = int (length ''BBBBBB'') \<and>
   InsertRecord example_h page_A ''BBBBBB'' 6 = (page_AB, Inr rid1) \<and>
   slots page_AB 1 = \<lparr>offset = 90, lengthS = 6\<rparr> \<and>
   memcpy_out (data page_AB) 90 6 = ''BBBBBB'' \<and>
   AvailableSpace page_AB = AvailableSpace page_A - 14 \<and>
   freeSpace page_A < 89 \<and>
   InsertRecord example_h page_A (replicate 89 CHR ''C'') 89 = (page_A, Inl DONE)"
  using InsertRecord_contract [of example_h page_A "''BBBBBB''" 6]
    InsertRecord_contract [of example_h page_A "replicate 89 CHR ''C''" 89]
  unfolding page_AB_def
  by (simp add: page_A_fields rid1_def example_h_fields prod_eq_iff)

text \<open>
  Claim C9. The check of \<open>InsertRecord\<close> compares the length with \<open>freeSpace\<close> alone: for
  \<open>freeSpace - sizeof(Slot) < length \<le> freeSpace\<close> the insertion succeeds, and
  \<open>AvailableSpace\<close> is then \<open>freeSpace - length - sizeof(Slot)\<close>, a negative number.
\<close>

theorem InsertRecord_negative_free_space:
  "freeSpace s - sizeof_Slot K < len \<Longrightarrow> len \<le> freeSpace s \<Longrightarrow>
   snd (InsertRecord K s recPtr len) = Inr \<lparr>pageNo = pid s, slotNo = numOfSlots s\<rparr> \<and>
   AvailableSpace (fst (InsertRecord K s recPtr len)) = freeSpace s - len - sizeof_Slot K \<and>
   AvailableSpace (fst (InsertRecord K s recPtr len)) < 0"
  by (simp add: InsertRecord_OK AvailableSpace_def)

theorem InsertRecord_negative_free_space_witness:
  "freeSpace page_A - sizeof_Slot example_h < 85 \<and> 85 \<le> freeSpace page_A \<and>
   snd (InsertRecord example_h page_A (replicate 85 CHR ''C'') 85) = Inr rid1 \<and>
   AvailableSpace (fst (InsertRecord example_h page_A (replicate 85 CHR ''C'') 85)) = - 5"
  using InsertRecord_negative_free_space [of page_A example_h 85 "replicate 85 CHR ''C''"]
  by (simp add: page_A_fields rid1_def example_h_fields)

text \<open>
  Claim C6. When \<open>InsertRecord\<close> succeeds and returns \<open>rid\<close>, \<open>GetRecord(rid)\<close> on the
  page it leaves succeeds and returns the inserted bytes and their length. The page is one
  on which the accounting equation holds with \<open>numOfSlots \<ge> 0\<close>, as it does on every
  reachable page (\<open>reachable_page_inv\<close>), and \<open>sizeof(Slot)\<close> is not negative.
\<close>

theorem InsertRecord_GetRecord:
  assumes "page_inv K s" and "0 \<le> sizeof_Slot K"
    and "InsertRecord K s recPtr (int (length recPtr)) = (s', Inr rid)"
  shows "GetRecord s' rid = Inr (recPtr, int (length recPtr))"
proof -
  let ?len = "int (length recPtr)"
  from assms(3) have fits: "\<not> freeSpace s < ?len"
    by (auto simp: InsertRecord_def)
  from assms(1,2) have "0 \<le> numOfSlots s * sizeof_Slot K"
    by (simp add: page_inv_def)
  with assms(1) fits have "0 \<le> HEAPPAGE_DATA_SIZE K - (fillPtr s + ?len)"
    by (simp add: page_inv_def accounting_def)
  then have "HEAPPAGE_DATA_SIZE K - (fillPtr s + ?len) \<noteq> - 1"
    by simp
  with assms(3) show ?thesis
    unfolding InsertRecord_OK [OF fits]
    by (auto simp: GetRecord_def Let_def memcpy_out_memcpy_in)
qed

theorem InsertRecord_GetRecord_witness:
  "page_inv example_h page_A \<and> 0 \<le> sizeof_Slot example_h \<and>
   InsertRecord example_h page_A ''BBBBBB'' (int (length ''BBBBBB'')) = (page_AB, Inr rid1) \<and>
   GetRecord page_AB rid1 = Inr (''BBBBBB'', 6)"
proof -
  have inv: "page_inv example_h page_A"
    by (simp add: page_inv_def accounting_def page_A_fields example_h_fields)
  have size: "0 \<le> sizeof_Slot example_h"
    by (simp add: example_h_fields)
  have ins: "InsertRecord example_h page_A ''BBBBBB'' (int (length ''BBBBBB'')) = (page_AB, Inr rid1)"
    by (simp add: page_AB_def rid1_def prod_eq_iff InsertRecord_OK page_A_fields)
  from InsertRecord_GetRecord [OF inv size ins] inv size ins show ?thesis
    by simp
qed


subsection \<open>The accounting equation\<close>

text \<open>
  Claim C4. The equation \<open>freeSpace = HEAPPAGE_DATA_SIZE - fillPtr - numOfSlots * sizeof(Slot)\<close>
  holds after \<open>Init\<close>, every method that changes the page preserves it (\<open>CompactSlotDir\<close>
  whenever it returns, which it does on a page with a live slot, \<open>CompactSlotDir_returns\<close>),
  and so it holds on every reachable page. The methods that only read the page are
  functions of the page with no page in their result.
\<close>

theorem accounting_invariant:
  "accounting K (Init K pageNo' s0) \<and>
   (accounting K s \<longrightarrow>
      accounting K (SetNextPage pageNo' s) \<and>
      accounting K (SetPrevPage pageNo' s) \<and>
      accounting K (fst (InsertRecord K s recPtr len)) \<and>
      accounting K (fst (DeleteRecord s rid)) \<and>
      (\<forall>s'. CompactSlotDir K s = Some s' \<longrightarrow> accounting K s')) \<and>
   (reachable K s \<longrightarrow> accounting K s)"
  using reachable_page_inv [of K s]
  by (auto simp: accounting_Init accounting_SetNextPage accounting_SetPrevPage
        accounting_InsertRecord accounting_DeleteRecord page_inv_def
      intro: accounting_CompactSlotDir)

theorem accounting_invariant_witness:
  "accounting example_h page_A \<and> reachable example_h page_A \<and>
   CompactSlotDir example_h page_A = Some (page_A\<lparr>freeSpace := 96, numOfSlots := 0\<rparr>) \<and>
   accounting example_h (page_A\<lparr>freeSpace := 96, numOfSlots := 0\<rparr>) \<and>
   accounting example_h (fst (InsertRecord example_h page_A ''BBBBBB'' 6)) \<and>
   accounting example_h (fst (DeleteRecord page_A rid0))"
proof -
  have acc: "accounting example_h page_A"
    by (simp add: accounting_def page_A_fields example_h_fields)
  from accounting_invariant [of example_h 7 zero_page page_A "''BBBBBB''" 6 rid0]
    acc reachable_page_A CompactSlotDir_page_A
  show ?thesis
    by simp
qed

subsection \<open>DeleteRecord\<close>

text \<open>
  Claim C10. The loop of \<open>DeleteRecord\<close> does not skip deleted slots. Let slot \<open>j\<close> of
  the page be deleted and let \<open>rid\<close> name a slot before \<open>j\<close> that is not deleted and holds
  a record of length at least 1. Then \<open>DeleteRecord(rid)\<close> returns \<open>OK\<close> and leaves slot
  \<open>j\<close> with the offset \<open>length - 1 \<ge> 0\<close> in place of \<open>-1\<close>, and \<open>GetRecord({pid, j})\<close>,
  which returned \<open>FAIL\<close> (\<^emph>\<open>RecordNotFound\<close>) before, returns \<open>OK\<close>.
\<close>

theorem DeleteRecord_resurrects:
  assumes "pageNo rid = pid s" and "offset (slots s (slotNo rid)) \<noteq> - 1"
    and "1 \<le> lengthS (slots s (slotNo rid))"
    and "slotNo rid < j" and "j < numOfSlots s" and "offset (slots s j) = - 1"
  shows "GetRecord s \<lparr>pageNo = pid s, slotNo = j\<rparr> = Inl FAIL \<and>
         snd (DeleteRecord s rid) = OK \<and>
         offset (slots (fst (DeleteRecord s rid)) j) = lengthS (slots s (slotNo rid)) - 1 \<and>
         0 \<le> offset (slots (fst (DeleteRecord s rid)) j) \<and>
         GetRecord (fst (DeleteRecord s rid)) \<lparr>pageNo = pid s, slotNo = j\<rparr> =
           Inr (memcpy_out (data (fst (DeleteRecord s rid)))
                  (lengthS (slots s (slotNo rid)) - 1) (lengthS (slots s j)),
                lengthS (slots s j))"
  using assms
  by (simp add: GetRecord_def DeleteRecord_def Let_def DeleteRecord_loop_slots)

theorem DeleteRecord_resurrects_witness:
  "pageNo rid0 = pid page_A_only \<and> offset (slots page_A_only (slotNo rid0)) \<noteq> - 1 \<and>
   1 \<le> lengthS (slots page_A_only (slotNo rid0)) \<and> slotNo rid0 < 1 \<and>
   1 < numOfSlots page_A_only \<and> offset (slots page_A_only 1) = - 1 \<and>
   GetRecord page_A_only rid1 = Inl FAIL \<and>
   snd (DeleteRecord page_A_only rid0) = OK \<and>
   offset (slots (fst (DeleteRecord page_A_only rid0)) 1) = 3 \<and>
   GetRecord (fst (DeleteRecord page_A_only rid0)) rid1 =
     Inr (memcpy_out (data (fst (DeleteRecord page_A_only rid0))) 3 6, 6)"
  using DeleteRecord_resurrects [of rid0 page_A_only 1]
  by (simp add: page_A_only_fields rid0_def rid1_def)

text \<open>
  Claim C1 says that a deletion leaves every other live record retrievable with the bytes
  it had. The loop of \<open>DeleteRecord\<close> copies \<open>rlength\<close> bytes, the length of the deleted
  record, for every later slot, whatever the length of the record in that slot. In the
  scenario of the specification \<open>AAAA\<close> is deleted and \<open>BBBBBB\<close>, which is longer, is
  read back as \<open>BBBBAA\<close>.
\<close>

theorem DeleteRecord_corrupts_longer_record:
  "GetRecord page_AB rid1 = Inr (''BBBBBB'', 6) \<and>
   DeleteRecord page_AB rid0 = (page_B, OK) \<and>
   GetRecord page_B rid1 = Inr (''BBBBAA'', 6)"
  by (simp add: DeleteRecord_page_AB)
     (simp add: GetRecord_def rid1_def page_AB_fields page_B_fields page_AB_data page_B_data
        memcpy_out_def memcpy_in_def memcpy_data_def upt_conv_Cons)

subsection \<open>CompactSlotDir\<close>

text \<open>
  Claim C2 says that \<open>CompactSlotDir\<close> leaves \<open>numOfSlots\<close> at the number of slots that
  were not deleted and keeps every live record retrievable. The second loop stops at
  \<open>start = end\<close> without looking at that slot, and \<open>numOfSlots = start\<close> then leaves it
  out: on the page that holds the one record \<open>AAAA\<close>, \<open>GetNumOfRecords\<close> is 1, and
  \<open>CompactSlotDir\<close> sets \<open>numOfSlots\<close> to 0, adds \<open>sizeof(Slot)\<close> to \<open>freeSpace\<close>, and
  \<open>GetRecord\<close> no longer finds the record.
\<close>

theorem CompactSlotDir_drops_live_record:
  "GetNumOfRecords page_A = 1 \<and>
   GetRecord page_A rid0 = Inr (''AAAA'', 4) \<and>
   CompactSlotDir example_h page_A = Some (page_A\<lparr>freeSpace := 96, numOfSlots := 0\<rparr>) \<and>
   GetNumOfRecords (page_A\<lparr>freeSpace := 96, numOfSlots := 0\<rparr>) = 0 \<and>
   GetRecord (page_A\<lparr>freeSpace := 96, numOfSlots := 0\<rparr>) rid0 = Inl FAIL"
proof -
  have "GetNumOfRecords page_A = 1"
    by (simp add: GetNumOfRecords_def)
       (subst GetNumOfRecords_loop.simps, simp add: page_A_fields,
        subst GetNumOfRecords_loop.simps, simp add: page_A_fields)
  moreover have "GetRecord page_A rid0 = Inr (''AAAA'', 4)"
    by (simp add: GetRecord_def rid0_def page_A_fields memcpy_out_def upt_conv_Cons)
       (simp add: page_A_def InsertRecord_OK page_empty_fields example_h_fields memcpy_in_def)
  moreover have "GetNumOfRecords (page_A\<lparr>freeSpace := 96, numOfSlots := 0\<rparr>) = 0"
    by (simp add: GetNumOfRecords_def) (subst GetNumOfRecords_loop.simps, simp)
  moreover have "GetRecord (page_A\<lparr>freeSpace := 96, numOfSlots := 0\<rparr>) rid0 = Inl FAIL"
    by (simp add: GetRecord_def rid0_def)
  ultimately show ?thesis
    by (simp add: CompactSlotDir_page_A)
qed

subsection \<open>The validity checks of DeleteRecord and GetRecord\<close>

text \<open>
  Claim C3 says that \<open>DeleteRecord\<close> fails with \<open>FAIL\<close> (\<^emph>\<open>RecordNotFound\<close>) exactly when
  the page id differs, the slot index is outside \<open>[0, numOfSlots)\<close> or the slot is deleted.
  \<open>DeleteRecord\<close> does not compare \<open>rid.slotNo\<close> with \<open>numOfSlots\<close>, as \<open>GetRecord\<close> and
  \<open>ReturnRecord\<close> do. After \<open>CompactSlotDir\<close> has moved slot 1 to slot 0, the page has
  one slot and the old entry at index 1 still holds an offset: \<open>DeleteRecord({7, 1})\<close>
  returns \<open>OK\<close> and takes the 6 bytes of the live record off \<open>fillPtr\<close>.
\<close>

theorem DeleteRecord_accepts_slot_out_of_range:
  "CompactSlotDir example_h page_B = Some page_B_compact \<and>
   pageNo rid1 = pid page_B_compact \<and>
   numOfSlots page_B_compact = 1 \<and> slotNo rid1 = 1 \<and>
   snd (DeleteRecord page_B_compact rid1) = OK \<and>
   fillPtr page_B_compact = 6 \<and> fillPtr (fst (DeleteRecord page_B_compact rid1)) = 0"
  by (simp add: CompactSlotDir_page_B)
     (simp add: page_B_compact_def page_B_fields rid1_def DeleteRecord_def Let_def)

text \<open>
  Claim C8 says that \<open>GetRecord(rid)\<close> fails if and only if \<open>DeleteRecord(rid)\<close> fails on
  the same page. On the page that is initialised again after it held \<open>AAAA\<close>, slot 0 is
  out of range: \<open>GetRecord({7, 0})\<close> returns \<open>FAIL\<close>, and \<open>DeleteRecord({7, 0})\<close>, which
  has no range check, finds the old offset in slot 0 and returns \<open>OK\<close>.
\<close>

theorem GetRecord_DeleteRecord_disagree:
  "numOfSlots page_again = 0 \<and>
   GetRecord page_again rid0 = Inl FAIL \<and>
   snd (DeleteRecord page_again rid0) = OK"
  by (simp add: GetRecord_def DeleteRecord_def page_again_fields rid0_def Let_def)

subsection \<open>What DeleteRecord checks\<close>

lemma DeleteRecord_FAIL_iff:
  "snd (DeleteRecord s rid) = FAIL \<longleftrightarrow>
     pageNo rid \<noteq> pid s \<or> offset (slots s (slotNo rid)) = - 1"
  by (simp add: DeleteRecord_def Let_def)

lemma DeleteRecord_FAIL_unchanged:
  "snd (DeleteRecord s rid) = FAIL \<Longrightarrow> fst (DeleteRecord s rid) = s"
  by (simp add: DeleteRecord_def Let_def split: if_splits)

lemma GetRecord_FAIL_iff:
  "GetRecord s rid = Inl FAIL \<longleftrightarrow>
     pageNo rid \<noteq> pid s \<or> numOfSlots s \<le> slotNo rid \<or> offset (slots s (slotNo rid)) = - 1"
  by (simp add: GetRecord_def Let_def)

end
